theory Spec2Isabelle
  imports Main "HOL-Library.Word" "HOL-Library.Sublist"
begin

unbundle bit_operations_syntax

section \<open>JavaScript values used by the server\<close>

text \<open>
  A JavaScript string is a sequence of UTF-16 code units; \<^verbatim>\<open>length\<close> counts code
  units, and a regular expression without the \<^verbatim>\<open>u\<close> flag matches code unit by code unit.
  \<open>js\<close> reads an ASCII literal as such a string.
\<close>

type_synonym codeUnit = "16 word"
type_synonym jsstring = "codeUnit list"
type_synonym byte = "8 word"

definition js :: "string \<Rightarrow> jsstring" where
  "js s = map (\<lambda>c. of_nat (of_char c)) s"

text \<open>Errors are values: a thrown exception or a rejected promise is \<open>Inl\<close>.\<close>

datatype error = TypeError | PrimitiveError

text \<open>
  \<^verbatim>\<open>Math.ceil(a / b)\<close> for integer \<open>a\<close> and positive integer \<open>b\<close> (the quotients of
  the server are of millisecond counts, far inside the range where the floating-point
  division is exact enough for the rounding to be that of the rationals).
\<close>

definition ceilDiv :: "int \<Rightarrow> int \<Rightarrow> int" where
  "ceilDiv a b = - ((- a) div b)"

text \<open>
  \<^verbatim>\<open>xs.slice(start)\<close>: a negative \<open>start\<close> counts from the end, and is cut off at the
  beginning of the array.
\<close>

definition slice_from :: "int \<Rightarrow> 'a list \<Rightarrow> 'a list" where
  "slice_from start xs =
     (let len = int (length xs);
          k = (if start < 0 then max (len + start) 0 else min start len)
      in drop (nat k) xs)"

section \<open>Account lockout (PasswordSecurityManager)\<close>

text \<open>
  Instants are JavaScript \<^verbatim>\<open>Date\<close> values, read through their millisecond time value
  (an integer).  A function of the source that calls \<^verbatim>\<open>new Date()\<close> takes the instant
  that call yields as its first argument \<open>now\<close>.  An absent \<^verbatim>\<open>lockoutUntil\<close>
  (\<^verbatim>\<open>undefined\<close> or \<^verbatim>\<open>null\<close>) is \<open>None\<close>.
\<close>

record AccountLockoutInfo =
  failedAttempts :: int
  lockoutUntil :: "int option"
  lastAttempt :: int

definition maxPasswordHistory :: nat where
  "maxPasswordHistory = 5"

definition maxFailedAttempts :: int where
  "maxFailedAttempts = 5"

definition lockoutDuration :: int where
  "lockoutDuration = 15 * 60 * 1000"

definition isAccountLocked :: "int \<Rightarrow> AccountLockoutInfo \<Rightarrow> bool" where
  "isAccountLocked now lockoutInfo =
     (case lockoutUntil lockoutInfo of
        None \<Rightarrow> False
      | Some until \<Rightarrow> now < until)"

text \<open>
  \<open>isAccountLocked\<close> returns before its \<^verbatim>\<open>new Date()\<close> when \<open>lockoutUntil\<close> is absent:
  \<open>datesRead\<close> is the number of instants a call of it reads.
\<close>

definition datesRead :: "AccountLockoutInfo \<Rightarrow> nat" where
  "datesRead lockoutInfo = (case lockoutUntil lockoutInfo of None \<Rightarrow> 0 | Some until \<Rightarrow> 1)"

definition recordFailedAttempt :: "int \<Rightarrow> AccountLockoutInfo \<Rightarrow> AccountLockoutInfo" where
  "recordFailedAttempt now lockoutInfo =
     (let attempts = failedAttempts lockoutInfo + 1;
          until = (if attempts \<ge> maxFailedAttempts then Some (now + lockoutDuration) else None)
      in \<lparr>failedAttempts = attempts, lockoutUntil = until, lastAttempt = now\<rparr>)"

definition resetFailedAttempts :: "int \<Rightarrow> AccountLockoutInfo \<Rightarrow> AccountLockoutInfo" where
  "resetFailedAttempts now lockoutInfo =
     \<lparr>failedAttempts = 0, lockoutUntil = None, lastAttempt = now\<rparr>"

definition getLockoutTimeRemaining :: "int \<Rightarrow> AccountLockoutInfo \<Rightarrow> int" where
  "getLockoutTimeRemaining now lockoutInfo =
     (case lockoutUntil lockoutInfo of
        None \<Rightarrow> 0
      | Some until \<Rightarrow> max 0 (until - now))"

text \<open>The Open state of the lockout tracker: no failure recorded, no lockout.\<close>

definition openState :: "int \<Rightarrow> AccountLockoutInfo" where
  "openState t0 = \<lparr>failedAttempts = 0, lockoutUntil = None, lastAttempt = t0\<rparr>"


section \<open>Password hashing (PasswordSecurityManager)\<close>

text \<open>
  \<^verbatim>\<open>bcrypt\<close> is the npm package of that name, a collaborator outside the repository.
  \<open>hashPassword\<close> and \<open>verifyPassword\<close> take it as a parameter \<open>lib\<close>: its
  \<^verbatim>\<open>hash(data, rounds)\<close> and \<^verbatim>\<open>compare(data, encrypted)\<close>, each of which may reject.
  A digest string is read as its parts when it is well formed (cost, salt, hash value,
  as in \<^verbatim>\<open>$2b$12$...\<close>), and is any other string otherwise.
\<close>

datatype digest = Digest nat "byte list" "byte list" | Malformed jsstring

record bcryptLib =
  bcrypt_hash :: "jsstring \<Rightarrow> nat \<Rightarrow> error + digest"
  bcrypt_compare :: "jsstring \<Rightarrow> digest \<Rightarrow> error + bool"

definition saltRounds :: nat where
  "saltRounds = 12"

definition defaultPepper :: jsstring where
  "defaultPepper = js ''default-pepper-change-in-production''"

text \<open>\<^verbatim>\<open>ENV.PASSWORD_PEPPER || 'default-pepper-change-in-production'\<close>: the empty string is falsy.\<close>

definition pepperOf :: "jsstring option \<Rightarrow> jsstring" where
  "pepperOf env = (case env of None \<Rightarrow> defaultPepper | Some s \<Rightarrow> if s = [] then defaultPepper else s)"

definition hashPassword :: "bcryptLib \<Rightarrow> jsstring \<Rightarrow> jsstring \<Rightarrow> error + digest" where
  "hashPassword lib pepper password =
     (let pepperedPassword = password @ pepper
      in bcrypt_hash lib pepperedPassword saltRounds)"

text \<open>The \<^verbatim>\<open>try\<close>/\<^verbatim>\<open>catch\<close> of \<open>verifyPassword\<close> turns a rejection of the primitive into \<open>false\<close>.\<close>

definition verifyPassword :: "bcryptLib \<Rightarrow> jsstring \<Rightarrow> jsstring \<Rightarrow> digest \<Rightarrow> error + bool" where
  "verifyPassword lib pepper password h =
     (let pepperedPassword = password @ pepper
      in case bcrypt_compare lib pepperedPassword h of
           Inl e \<Rightarrow> Inr False
         | Inr b \<Rightarrow> Inr b)"

subsection \<open>The bcrypt package\<close>

text \<open>
  The UTF-8 encoding of a JavaScript string, as Node encodes a string handed to a native
  module: a surrogate pair is one four-byte sequence, a lone surrogate is encoded as
  U+FFFD.
\<close>

definition isHighSurrogate :: "codeUnit \<Rightarrow> bool" where
  "isHighSurrogate c = (0xD800 \<le> c \<and> c \<le> 0xDBFF)"

definition isLowSurrogate :: "codeUnit \<Rightarrow> bool" where
  "isLowSurrogate c = (0xDC00 \<le> c \<and> c \<le> 0xDFFF)"

definition utf8_pair :: "codeUnit \<Rightarrow> codeUnit \<Rightarrow> byte list" where
  "utf8_pair c d =
     (let cp :: 32 word = 0x10000 + push_bit 10 (ucast (c AND 0x3FF)) + ucast (d AND 0x3FF)
      in [0xF0 OR ucast (drop_bit 18 cp), 0x80 OR ucast (drop_bit 12 cp AND 0x3F),
          0x80 OR ucast (drop_bit 6 cp AND 0x3F), 0x80 OR ucast (cp AND 0x3F)])"

definition utf8_unit :: "codeUnit \<Rightarrow> byte list" where
  "utf8_unit c =
     (if c < 0x80 then [ucast c]
      else if c < 0x800 then [0xC0 OR ucast (drop_bit 6 c), 0x80 OR ucast (c AND 0x3F)]
      else if isHighSurrogate c \<or> isLowSurrogate c then [0xEF, 0xBF, 0xBD]
      else [0xE0 OR ucast (drop_bit 12 c), 0x80 OR ucast (drop_bit 6 c AND 0x3F),
            0x80 OR ucast (c AND 0x3F)])"

fun utf8 :: "jsstring \<Rightarrow> byte list" where
  "utf8 [] = []"
| "utf8 [c] = utf8_unit c"
| "utf8 (c # d # ds) =
     (if isHighSurrogate c \<and> isLowSurrogate d then utf8_pair c d @ utf8 ds
      else utf8_unit c @ utf8 (d # ds))"

text \<open>
  The package's documented behaviour, as far as the server depends on it: only the first
  72 bytes of the UTF-8 encoding of \<open>data\<close> are used; \<^verbatim>\<open>hash\<close> draws a salt and returns
  the digest of cost, salt and hash value; \<^verbatim>\<open>compare\<close> recomputes the hash value with the
  cost and salt of the digest and compares, and answers \<open>false\<close> to a string that is not
  a digest.  The key schedule itself is the parameter \<open>eks\<close> (cost, salt, key bytes to
  hash value), and \<open>salt\<close> is the salt that the next call of \<^verbatim>\<open>hash\<close> draws.
\<close>

definition bcrypt :: "(nat \<Rightarrow> byte list \<Rightarrow> byte list \<Rightarrow> byte list) \<Rightarrow> byte list \<Rightarrow> bcryptLib" where
  "bcrypt eks salt =
     \<lparr>bcrypt_hash = (\<lambda>data rounds. Inr (Digest rounds salt (eks rounds salt (take 72 (utf8 data))))),
      bcrypt_compare = (\<lambda>data encrypted.
         case encrypted of
           Digest rounds s h \<Rightarrow> Inr (eks rounds s (take 72 (utf8 data)) = h)
         | Malformed _ \<Rightarrow> Inr False)\<rparr>"

section \<open>Password history (PasswordSecurityManager)\<close>

record PasswordHistoryEntry =
  passwordHash :: digest
  createdAt :: int

text \<open>\<open>existingHistory\<close> is an optional argument with default \<^verbatim>\<open>[]\<close>.\<close>

definition addToPasswordHistory ::
  "bcryptLib \<Rightarrow> jsstring \<Rightarrow> int \<Rightarrow> jsstring \<Rightarrow> PasswordHistoryEntry list option
     \<Rightarrow> error + PasswordHistoryEntry list" where
  "addToPasswordHistory lib pepper now password existingHistory =
     (case hashPassword lib pepper password of
        Inl e \<Rightarrow> Inl e
      | Inr h \<Rightarrow>
          (let newEntry = \<lparr>passwordHash = h, createdAt = now\<rparr>;
               updatedHistory = (case existingHistory of None \<Rightarrow> [] | Some hs \<Rightarrow> hs) @ [newEntry]
           in Inr (slice_from (- int maxPasswordHistory) updatedHistory)))"

section \<open>The authentication routes\<close>

text \<open>
  The stored accounts are the documents of the \<^verbatim>\<open>User\<close> collection, with the fields the
  login routes read or write.  \<^verbatim>\<open>User.findOne\<close> yields the first document that matches,
  \<^verbatim>\<open>User.findByIdAndUpdate(id, {lockoutInfo})\<close> replaces the lockout record of the document
  with that id.  Both are taken to succeed; a handler's \<^verbatim>\<open>catch\<close> branch (status 500) is
  reached in the model only through a rejection in the handler's own code.
\<close>

record User =
  userId :: nat
  username :: jsstring
  fullName :: jsstring
  idNumber :: jsstring
  accountNumber :: jsstring
  userPasswordHash :: digest
  lockoutInfo :: AccountLockoutInfo

fun findByIdAndUpdate :: "nat \<Rightarrow> AccountLockoutInfo \<Rightarrow> User list \<Rightarrow> User list" where
  "findByIdAndUpdate i li [] = []"
| "findByIdAndUpdate i li (u # us) =
     (if userId u = i then u\<lparr>lockoutInfo := li\<rparr> # us else u # findByIdAndUpdate i li us)"

text \<open>The validated request data: \<^verbatim>\<open>{username, accountNumber, password}\<close> and \<^verbatim>\<open>{employeeNumber, password}\<close>.\<close>

datatype loginData = LoginData jsstring jsstring jsstring

datatype employeeLoginData = EmployeeLoginData jsstring jsstring

datatype payload =
    InvalidInput
  | ErrorMessage string
  | Locked string int
  | LoggedIn jsstring jsstring jsstring
  | EmployeeLoggedIn jsstring jsstring jsstring

record response =
  status :: nat
  payload :: payload

text \<open>The calls a handler makes to its collaborators, in order.\<close>

datatype call =
    FindOne
  | VerifyPassword jsstring digest
  | UpdateLockout nat AccountLockoutInfo
  | RegenerateSession

record outcome =
  reply :: response
  users :: "User list"
  calls :: "call list"

text \<open>
  \<^verbatim>\<open>POST /login\<close>, from the parsed body on (\<open>None\<close>: the schema rejected it).  \<open>clock k\<close>
  is the instant of the \<open>k\<close>-th \<^verbatim>\<open>new Date()\<close> of the request, counted from 0, and
  \<open>regenerateOk\<close> tells whether \<^verbatim>\<open>req.session.regenerate\<close> succeeds.  On a locked account
  the lockout check reads \<open>clock 0\<close> and \<open>getLockoutTimeRemaining\<close> reads \<open>clock 1\<close>.
  Otherwise \<open>recordFailedAttempt\<close> or \<open>resetFailedAttempts\<close> reads the next instant after
  those of the lockout check, which is \<open>clock 0\<close> when \<open>lockoutUntil\<close> is absent, and the
  check of the updated record reads the one after that.
\<close>

definition loginHandler ::
  "bcryptLib \<Rightarrow> jsstring \<Rightarrow> (nat \<Rightarrow> int) \<Rightarrow> bool \<Rightarrow> loginData option \<Rightarrow> User list \<Rightarrow> outcome" where
  "loginHandler lib pepper clock regenerateOk parsed db =
     (case parsed of
        None \<Rightarrow> \<lparr>reply = \<lparr>status = 400, payload = InvalidInput\<rparr>, users = db, calls = []\<rparr>
      | Some (LoginData uname acct password) \<Rightarrow>
          (case find (\<lambda>u. username u = uname \<and> accountNumber u = acct) db of
             None \<Rightarrow>
               \<lparr>reply = \<lparr>status = 401, payload = ErrorMessage ''Invalid credentials''\<rparr>,
                users = db, calls = [FindOne]\<rparr>
           | Some user \<Rightarrow>
               if isAccountLocked (clock 0) (lockoutInfo user) then
                 (let timeRemaining = getLockoutTimeRemaining (clock 1) (lockoutInfo user);
                      minutesRemaining = ceilDiv timeRemaining (1000 * 60)
                  in \<lparr>reply = \<lparr>status = 423,
                         payload = Locked ''Account temporarily locked due to too many failed attempts''
                                  minutesRemaining\<rparr>,
                       users = db, calls = [FindOne]\<rparr>)
               else
                 (case verifyPassword lib pepper password (userPasswordHash user) of
                    Inl e \<Rightarrow>
                      \<lparr>reply = \<lparr>status = 500, payload = ErrorMessage ''Server error''\<rparr>, users = db,
                       calls = [FindOne, VerifyPassword password (userPasswordHash user)]\<rparr>
                  | Inr ok \<Rightarrow>
                      if \<not> ok then
                        (let k = datesRead (lockoutInfo user);
                             updatedLockoutInfo = recordFailedAttempt (clock k) (lockoutInfo user);
                             db' = findByIdAndUpdate (userId user) updatedLockoutInfo db;
                             cs = [FindOne, VerifyPassword password (userPasswordHash user),
                                   UpdateLockout (userId user) updatedLockoutInfo]
                         in if isAccountLocked (clock (k + 1)) updatedLockoutInfo then
                              \<lparr>reply = \<lparr>status = 423,
                                  payload = Locked ''Account locked due to too many failed attempts'' 15\<rparr>,
                               users = db', calls = cs\<rparr>
                            else
                              \<lparr>reply = \<lparr>status = 401, payload = ErrorMessage ''Invalid credentials''\<rparr>,
                               users = db', calls = cs\<rparr>)
                      else
                        (let k = datesRead (lockoutInfo user);
                             resetLockoutInfo = resetFailedAttempts (clock k) (lockoutInfo user);
                             db' = findByIdAndUpdate (userId user) resetLockoutInfo db;
                             cs = [FindOne, VerifyPassword password (userPasswordHash user),
                                   UpdateLockout (userId user) resetLockoutInfo, RegenerateSession]
                         in if regenerateOk then
                              \<lparr>reply = \<lparr>status = 200,
                                  payload = LoggedIn (username user) (fullName user) (accountNumber user)\<rparr>,
                               users = db', calls = cs\<rparr>
                            else
                              \<lparr>reply = \<lparr>status = 500, payload = ErrorMessage ''Session error''\<rparr>,
                               users = db', calls = cs\<rparr>))))"

text \<open>\<^verbatim>\<open>POST /employee/login\<close>, from the parsed body on.\<close>

definition employeeLoginHandler ::
  "bcryptLib \<Rightarrow> jsstring \<Rightarrow> bool \<Rightarrow> employeeLoginData option \<Rightarrow> User list \<Rightarrow> outcome" where
  "employeeLoginHandler lib pepper regenerateOk parsed db =
     (case parsed of
        None \<Rightarrow> \<lparr>reply = \<lparr>status = 400, payload = InvalidInput\<rparr>, users = db, calls = []\<rparr>
      | Some (EmployeeLoginData employeeNumber password) \<Rightarrow>
          (case find (\<lambda>u. username u = employeeNumber \<or> idNumber u = employeeNumber) db of
             None \<Rightarrow>
               \<lparr>reply = \<lparr>status = 401, payload = ErrorMessage ''Invalid credentials''\<rparr>,
                users = db, calls = [FindOne]\<rparr>
           | Some user \<Rightarrow>
               (case verifyPassword lib pepper password (userPasswordHash user) of
                  Inl e \<Rightarrow>
                    \<lparr>reply = \<lparr>status = 500, payload = ErrorMessage ''Server error''\<rparr>, users = db,
                     calls = [FindOne, VerifyPassword password (userPasswordHash user)]\<rparr>
                | Inr ok \<Rightarrow>
                    if \<not> ok then
                      \<lparr>reply = \<lparr>status = 401, payload = ErrorMessage ''Invalid credentials''\<rparr>,
                       users = db, calls = [FindOne, VerifyPassword password (userPasswordHash user)]\<rparr>
                    else
                      (let cs = [FindOne, VerifyPassword password (userPasswordHash user),
                                 RegenerateSession]
                       in if regenerateOk then
                            \<lparr>reply = \<lparr>status = 200,
                                payload = EmployeeLoggedIn (username user) (fullName user) (accountNumber user)\<rparr>,
                             users = db, calls = cs\<rparr>
                          else
                            \<lparr>reply = \<lparr>status = 500, payload = ErrorMessage ''Session error''\<rparr>,
                             users = db, calls = cs\<rparr>))))"

section \<open>Fingerprint-keyed rate limiter (enhancedRateLimit)\<close>

text \<open>
  The middleware keeps a \<^verbatim>\<open>Map\<close> from fingerprint to window.  The model takes the
  fingerprint \<open>key\<close> of the request (a SHA-256 digest in hexadecimal) and the value
  \<open>now\<close> of \<^verbatim>\<open>Date.now()\<close>, and returns the verdict with the map after the request:
  \<open>Next\<close> hands the request on, \<open>TooManyRequests r\<close> is the 429 response with
  \<^verbatim>\<open>retryAfter\<close> \<open>r\<close>.  The entry the 429 branch appends to the security log touches
  neither the map nor the response and is left out.
\<close>

record RateWindow =
  count :: int
  resetTime :: int

datatype verdict = Next | TooManyRequests int

definition windowMs :: int where
  "windowMs = 15 * 60 * 1000"

definition maxRequests :: int where
  "maxRequests = 100"

definition enhancedRateLimit ::
  "jsstring \<Rightarrow> int \<Rightarrow> (jsstring \<rightharpoonup> RateWindow) \<Rightarrow> verdict \<times> (jsstring \<rightharpoonup> RateWindow)" where
  "enhancedRateLimit key now requests =
     (case requests key of
        None \<Rightarrow> (Next, requests(key \<mapsto> \<lparr>count = 1, resetTime = now + windowMs\<rparr>))
      | Some current \<Rightarrow>
          if now > resetTime current then
            (Next, requests(key \<mapsto> \<lparr>count = 1, resetTime = now + windowMs\<rparr>))
          else if count current \<ge> maxRequests then
            (TooManyRequests (ceilDiv (resetTime current - now) 1000), requests)
          else
            (Next, requests(key \<mapsto> current\<lparr>count := count current + 1\<rparr>)))"

text \<open>The map after a sequence of requests, each with its fingerprint and its instant.\<close>

fun rateLimitAll :: "(jsstring \<times> int) list \<Rightarrow> (jsstring \<rightharpoonup> RateWindow) \<Rightarrow> (jsstring \<rightharpoonup> RateWindow)" where
  "rateLimitAll [] requests = requests"
| "rateLimitAll ((key, now) # rs) requests = rateLimitAll rs (snd (enhancedRateLimit key now requests))"

text \<open>The instants of the requests with fingerprint \<open>key\<close>, in order.\<close>

definition checksOf :: "jsstring \<Rightarrow> (jsstring \<times> int) list \<Rightarrow> int list" where
  "checksOf key rs = map snd (filter (\<lambda>r. fst r = key) rs)"

text \<open>What one check does to the window of its own fingerprint.\<close>

definition stepWindow :: "int \<Rightarrow> RateWindow option \<Rightarrow> RateWindow option" where
  "stepWindow now w =
     (case w of
        None \<Rightarrow> Some \<lparr>count = 1, resetTime = now + windowMs\<rparr>
      | Some current \<Rightarrow>
          if now > resetTime current then Some \<lparr>count = 1, resetTime = now + windowMs\<rparr>
          else if count current \<ge> maxRequests then Some current
          else Some (current\<lparr>count := count current + 1\<rparr>))"

section \<open>Honeypot fields (checkHoneypotFields)\<close>

text \<open>
  A request body is what the JSON body parser leaves in \<^verbatim>\<open>req.body\<close>: a JSON value, or
  nothing.  An object is the list of its own properties.  Numbers are the integers
  (below \<open>10\<^sup>2\<^sup>1\<close> in magnitude, where \<^verbatim>\<open>toString\<close> is the decimal numeral); any other
  number is, like a non-zero integer, truthy with a string form that is not blank.
\<close>

datatype json =
    JNull
  | JBool bool
  | JNum int
  | JStr jsstring
  | JArr "json list"
  | JObj "(jsstring \<times> json) list"

definition HONEYPOT_FIELDS :: "jsstring list" where
  "HONEYPOT_FIELDS = map js
     [''website'', ''url'', ''homepage'', ''home_page'', ''website_url'',
      ''email_confirm'', ''email_confirmation'', ''email_verify'',
      ''phone_confirm'', ''phone_confirmation'',
      ''address_confirm'', ''address_confirmation'',
      ''captcha'', ''recaptcha'', ''hcaptcha'',
      ''bot_check'', ''human_check'', ''spam_check'',
      ''timestamp'', ''time_check'', ''delay'',
      ''company'', ''company_name'', ''business_name'',
      ''website_url'', ''personal_website'', ''blog_url'',
      ''social_media'', ''facebook'', ''twitter'', ''instagram'',
      ''linkedin'', ''github'', ''portfolio'', ''cv'', ''resume'']"

text \<open>JavaScript truthiness of a JSON value.\<close>

fun truthy :: "json \<Rightarrow> bool" where
  "truthy JNull = False"
| "truthy (JBool b) = b"
| "truthy (JNum n) = (n \<noteq> 0)"
| "truthy (JStr s) = (s \<noteq> [])"
| "truthy (JArr xs) = True"
| "truthy (JObj kvs) = True"

text \<open>
  \<^verbatim>\<open>body[field]\<close>: the own property of an object (the last one of that name the parser
  met); none of the honeypot names is a property of an array, a string, a number or a
  boolean, nor of \<^verbatim>\<open>Object.prototype\<close>.
\<close>

fun getProp :: "json \<Rightarrow> jsstring \<Rightarrow> json option" where
  "getProp (JObj kvs) field = map_of (rev kvs) field"
| "getProp body field = None"

fun natToString :: "nat \<Rightarrow> jsstring" where
  "natToString n =
     (if n < 10 then [0x30 + of_nat n]
      else natToString (n div 10) @ [0x30 + of_nat (n mod 10)])"

definition numberToString :: "int \<Rightarrow> jsstring" where
  "numberToString n = (if n < 0 then 0x2D # natToString (nat (- n)) else natToString (nat n))"

fun joinWith :: "jsstring \<Rightarrow> jsstring list \<Rightarrow> jsstring" where
  "joinWith sep [] = []"
| "joinWith sep [s] = s"
| "joinWith sep (s # t # ts) = s @ sep @ joinWith sep (t # ts)"

text \<open>
  \<^verbatim>\<open>v.toString()\<close>.  On \<^verbatim>\<open>null\<close> the call throws.  An array joins the string forms of
  its elements with commas, \<^verbatim>\<open>null\<close> counting as the empty string.  An object answers
  \<^verbatim>\<open>[object Object]\<close>, unless it has an own property \<^verbatim>\<open>toString\<close>: that is a JSON value,
  which cannot be called, and the conversion throws.
\<close>

fun toStringJ :: "json \<Rightarrow> error + jsstring"
  and elementStrings :: "json list \<Rightarrow> error + jsstring list" where
  "toStringJ JNull = Inl TypeError"
| "toStringJ (JBool b) = Inr (if b then js ''true'' else js ''false'')"
| "toStringJ (JNum n) = Inr (numberToString n)"
| "toStringJ (JStr s) = Inr s"
| "toStringJ (JArr xs) =
     (case elementStrings xs of Inl e \<Rightarrow> Inl e | Inr ss \<Rightarrow> Inr (joinWith (js '','') ss))"
| "toStringJ (JObj kvs) =
     (if js ''toString'' \<in> set (map fst kvs) then Inl TypeError else Inr (js ''[object Object]''))"
| "elementStrings [] = Inr []"
| "elementStrings (x # xs) =
     (case (case x of JNull \<Rightarrow> Inr [] | _ \<Rightarrow> toStringJ x) of
        Inl e \<Rightarrow> Inl e
      | Inr s \<Rightarrow> (case elementStrings xs of Inl e \<Rightarrow> Inl e | Inr ss \<Rightarrow> Inr (s # ss)))"

text \<open>\<^verbatim>\<open>String.prototype.trim\<close> removes white space and line terminators at both ends.\<close>

definition isWhiteSpace :: "codeUnit \<Rightarrow> bool" where
  "isWhiteSpace c =
     (c \<in> {0x09, 0x0A, 0x0B, 0x0C, 0x0D, 0x20, 0xA0, 0x1680, 0x2028, 0x2029, 0x202F, 0x205F,
            0x3000, 0xFEFF}
      \<or> (0x2000 \<le> c \<and> c \<le> 0x200A))"

definition trim :: "jsstring \<Rightarrow> jsstring" where
  "trim s = rev (dropWhile isWhiteSpace (rev (dropWhile isWhiteSpace s)))"

text \<open>The loop over \<open>HONEYPOT_FIELDS\<close>, with its early return.\<close>

fun honeypotLoop :: "json \<Rightarrow> jsstring list \<Rightarrow> error + bool" where
  "honeypotLoop body [] = Inr False"
| "honeypotLoop body (field # remaining) =
     (case getProp body field of
        None \<Rightarrow> honeypotLoop body remaining
      | Some v \<Rightarrow>
          if truthy v then
            (case toStringJ v of
               Inl e \<Rightarrow> Inl e
             | Inr s \<Rightarrow> if trim s \<noteq> [] then Inr True else honeypotLoop body remaining)
          else honeypotLoop body remaining)"

text \<open>\<^verbatim>\<open>req.body || {}\<close>\<close>

definition bodyOf :: "json option \<Rightarrow> json" where
  "bodyOf reqBody = (case reqBody of None \<Rightarrow> JObj [] | Some b \<Rightarrow> if truthy b then b else JObj [])"

definition checkHoneypotFields :: "json option \<Rightarrow> error + bool" where
  "checkHoneypotFields reqBody = honeypotLoop (bodyOf reqBody) HONEYPOT_FIELDS"

section \<open>Password strength (PasswordSecurityManager.checkPasswordStrength)\<close>

record PasswordStrengthResult =
  score :: int
  feedback :: "string list"
  isStrong :: bool

subsection \<open>The regular expressions of the source\<close>

text \<open>
  None of them has the \<^verbatim>\<open>u\<close> flag, so each works on code units, and \<^verbatim>\<open>test\<close> looks for
  a match starting at any index.
\<close>

definition isLowercase :: "codeUnit \<Rightarrow> bool" where
  "isLowercase c = (0x61 \<le> c \<and> c \<le> 0x7A)"

definition isUppercase :: "codeUnit \<Rightarrow> bool" where
  "isUppercase c = (0x41 \<le> c \<and> c \<le> 0x5A)"

definition isDigit :: "codeUnit \<Rightarrow> bool" where
  "isDigit c = (0x30 \<le> c \<and> c \<le> 0x39)"

definition isSpecial :: "codeUnit \<Rightarrow> bool" where
  "isSpecial c = (\<not> (isUppercase c \<or> isLowercase c \<or> isDigit c))"

text \<open>The dot of a regular expression matches any code unit but a line terminator.\<close>

definition isLineTerminator :: "codeUnit \<Rightarrow> bool" where
  "isLineTerminator c = (c \<in> {0x0A, 0x0D, 0x2028, 0x2029})"

text \<open>\<^verbatim>\<open>/(.)\1{2,}/\<close>: at some index, a code unit the dot matches, then the same twice more.\<close>

fun repeatedChar :: "jsstring \<Rightarrow> bool" where
  "repeatedChar (a # b # c # cs) =
     ((\<not> isLineTerminator a \<and> b = a \<and> c = a) \<or> repeatedChar (b # c # cs))"
| "repeatedChar cs = False"

text \<open>
  Case folding of the \<^verbatim>\<open>i\<close> flag, as far as a comparison with an ASCII pattern character
  depends on it: an ASCII letter folds to its upper case, and a code unit from 128 on
  never folds to an ASCII one.
\<close>

definition canonicalize :: "codeUnit \<Rightarrow> codeUnit" where
  "canonicalize c = (if isLowercase c then c - 0x20 else c)"

fun matchAt :: "jsstring \<Rightarrow> jsstring \<Rightarrow> bool" where
  "matchAt [] cs = True"
| "matchAt (p # ps) [] = False"
| "matchAt (p # ps) (c # cs) = (canonicalize c = canonicalize p \<and> matchAt ps cs)"

text \<open>\<^verbatim>\<open>/123|abc|qwe|password|admin/i\<close>: the alternatives, tried at every index.\<close>

definition commonPatterns :: "jsstring list" where
  "commonPatterns = map js [''123'', ''abc'', ''qwe'', ''password'', ''admin'']"

fun searchAlternatives :: "jsstring list \<Rightarrow> jsstring \<Rightarrow> bool" where
  "searchAlternatives alts [] = list_ex (\<lambda>a. matchAt a []) alts"
| "searchAlternatives alts (c # cs) =
     (list_ex (\<lambda>a. matchAt a (c # cs)) alts \<or> searchAlternatives alts cs)"

text \<open>
  \<^verbatim>\<open>new Set(password)\<close> takes the elements the string iterator yields: one string per
  code point, a surrogate pair making one element of two code units.
\<close>

fun stringIterator :: "jsstring \<Rightarrow> jsstring list" where
  "stringIterator [] = []"
| "stringIterator [c] = [[c]]"
| "stringIterator (c # d # ds) =
     (if isHighSurrogate c \<and> isLowSurrogate d then [c, d] # stringIterator ds
      else [c] # stringIterator (d # ds))"

definition setSize :: "'a list \<Rightarrow> int" where
  "setSize xs = int (length (remdups xs))"

subsection \<open>The function\<close>

definition checkPasswordStrength :: "jsstring \<Rightarrow> PasswordStrengthResult" where
  "checkPasswordStrength password =
     (let len = int (length password);
          fb = [];
          sc = 0;
          (sc, fb) = (if len \<ge> 8 then (sc + 20, fb)
                      else (sc, fb @ [''Password should be at least 8 characters long'']));
          sc = (if len \<ge> 12 then sc + 10 else sc);
          sc = (if len \<ge> 16 then sc + 10 else sc);
          (sc, fb) = (if list_ex isLowercase password then (sc + 10, fb)
                      else (sc, fb @ [''Password should contain lowercase letters'']));
          (sc, fb) = (if list_ex isUppercase password then (sc + 10, fb)
                      else (sc, fb @ [''Password should contain uppercase letters'']));
          (sc, fb) = (if list_ex isDigit password then (sc + 10, fb)
                      else (sc, fb @ [''Password should contain numbers'']));
          (sc, fb) = (if list_ex isSpecial password then (sc + 10, fb)
                      else (sc, fb @ [''Password should contain special characters'']));
          (sc, fb) = (if repeatedChar password then (sc - 10, fb @ [''Avoid repeating characters''])
                      else (sc, fb));
          (sc, fb) = (if searchAlternatives commonPatterns password
                      then (sc - 20, fb @ [''Avoid common patterns or dictionary words''])
                      else (sc, fb));
          uniqueChars = setSize (stringIterator password);
          (sc, fb) = (if uniqueChars < 4 then (sc - 10, fb @ [''Use more diverse characters''])
                      else (sc, fb));
          sc = (if len \<ge> 16 \<and> uniqueChars \<ge> 10 then sc + 10 else sc);
          sc = (if len \<ge> 20 \<and> uniqueChars \<ge> 15 then sc + 10 else sc);
          sc = max 0 (min 100 sc);
          strong = (sc \<ge> 70);
          fb = (if sc < 30 then ''Password is very weak'' # fb
                else if sc < 50 then ''Password is weak'' # fb
                else if sc < 70 then ''Password is moderate'' # fb
                else if sc < 90 then ''Password is strong'' # fb
                else if sc < 100 then ''Password is very strong'' # fb
                else ''Password is perfect! Maximum security achieved'' # fb)
      in \<lparr>score = sc, feedback = fb, isStrong = strong\<rparr>)"

subsection \<open>The scoring scheme in the words of the specification\<close>

text \<open>
  The additive scheme as the specification states it, a character being an element of
  the string: some character occurs three times in a row; some stretch of the password
  is, case ignored, one of the listed words; the number of distinct characters.
\<close>

definition bonus :: "bool \<Rightarrow> int \<Rightarrow> int" where
  "bonus b n = (if b then n else 0)"

definition repeatsThrice :: "jsstring \<Rightarrow> bool" where
  "repeatsThrice p = (\<exists>c. sublist [c, c, c] p)"

definition sameIgnoringCase :: "jsstring \<Rightarrow> jsstring \<Rightarrow> bool" where
  "sameIgnoringCase d w = list_all2 (\<lambda>a b. canonicalize b = canonicalize a) d w"

definition onDenylist :: "jsstring \<Rightarrow> bool" where
  "onDenylist p = (\<exists>d \<in> set commonPatterns. \<exists>w. sublist w p \<and> sameIgnoringCase d w)"

definition schemeSum :: "jsstring \<Rightarrow> bool \<Rightarrow> int \<Rightarrow> int" where
  "schemeSum p repeated distinctChars =
     (let n = int (length p)
      in bonus (n \<ge> 8) 20 + bonus (n \<ge> 12) 10 + bonus (n \<ge> 16) 10
         + bonus (\<exists>c \<in> set p. isLowercase c) 10 + bonus (\<exists>c \<in> set p. isUppercase c) 10
         + bonus (\<exists>c \<in> set p. isDigit c) 10 + bonus (\<exists>c \<in> set p. isSpecial c) 10
         - bonus repeated 10
         - bonus (onDenylist p) 20
         - bonus (distinctChars < 4) 10
         + bonus (n \<ge> 16 \<and> distinctChars \<ge> 10) 10
         + bonus (n \<ge> 20 \<and> distinctChars \<ge> 15) 10)"

definition specScore :: "jsstring \<Rightarrow> int" where
  "specScore p = max 0 (min 100 (schemeSum p (repeatsThrice p) (int (card (set p)))))"




definition emojiPassword :: jsstring where
  "emojiPassword = [0xD83D, 0xDE00, 0xD83D, 0xDE01, 0xD83D, 0xDE02]"

section \<open>Example data\<close>

text \<open>
  A small instance for evaluating the handlers: a key schedule that is the identity on
  the key bytes, an account \<open>alice\<close> whose password is \<^verbatim>\<open>Secret#2024\<close>, locked until
  instant 2000000, and a primitive whose \<^verbatim>\<open>compare\<close> always rejects.
\<close>

definition plainEks :: "nat \<Rightarrow> byte list \<Rightarrow> byte list \<Rightarrow> byte list" where
  "plainEks rounds salt key = key"

definition exampleLib :: bcryptLib where
  "exampleLib = bcrypt plainEks [1, 2, 3]"

definition rejectingLib :: bcryptLib where
  "rejectingLib = \<lparr>bcrypt_hash = (\<lambda>data rounds. Inl PrimitiveError),
                    bcrypt_compare = (\<lambda>data encrypted. Inl PrimitiveError)\<rparr>"

definition alicePassword :: jsstring where
  "alicePassword = js ''Secret#2024''"

definition aliceDigest :: digest where
  "aliceDigest = Digest 12 [1, 2, 3] (utf8 (alicePassword @ defaultPepper))"

definition aliceLocked :: User where
  "aliceLocked = \<lparr>userId = 7, username = js ''alice'', fullName = js ''Alice A'',
     idNumber = js ''ID0001'', accountNumber = js ''12345678'', userPasswordHash = aliceDigest,
     lockoutInfo = \<lparr>failedAttempts = 5, lockoutUntil = Some 2000000, lastAttempt = 1100000\<rparr>\<rparr>"

definition aliceLogin :: loginData where
  "aliceLogin = LoginData (js ''alice'') (js ''12345678'') alicePassword"

definition longPassword :: jsstring where
  "longPassword = js (replicate 72 (CHR ''a''))"

text \<open>
  A password of 72 characters with all four character classes; followed by \<^verbatim>\<open>x\<close> it has
  73 characters, passes the registration schema and is strong.
\<close>

definition registrablePassword :: jsstring where
  "registrablePassword = js ''Aa1!'' @ js (replicate 68 (CHR ''a''))"

definition aliceOpen :: User where
  "aliceOpen = aliceLocked\<lparr>lockoutInfo := openState 1000000\<rparr>"

definition wrongLogin :: loginData where
  "wrongLogin = LoginData (js ''alice'') (js ''12345678'') (js ''guess'')"

definition exampleClock :: "nat \<Rightarrow> int" where
  "exampleClock k = 1500000 + int k"

text \<open>One request after the other: the accounts left by a request are those the next one finds.\<close>

fun loginSequence ::
  "bcryptLib \<Rightarrow> jsstring \<Rightarrow> ((nat \<Rightarrow> int) \<times> loginData) list \<Rightarrow> User list \<Rightarrow> response list \<times> User list" where
  "loginSequence lib pepper [] db = ([], db)"
| "loginSequence lib pepper ((clock, d) # rs) db =
     (let out = loginHandler lib pepper clock True (Some d) db;
          (replies, db') = loginSequence lib pepper rs (users out)
      in (reply out # replies, db'))"

definition exampleTraffic :: "(jsstring \<times> int) list" where
  "exampleTraffic =
     concat (map (\<lambda>i. [(js ''fp-a'', 1000 + int i), (js ''fp-b'', 1000 + int i)]) [0..<100])"


section \<open>Lockout tracker: properties\<close>

lemma recordFailedAttempt_count:
  "failedAttempts (recordFailedAttempt now s) = failedAttempts s + 1"
  by (simp add: recordFailedAttempt_def Let_def)

lemma recordFailedAttempt_below_threshold:
  "failedAttempts s + 1 < 5 \<Longrightarrow> lockoutUntil (recordFailedAttempt now s) = None"
  by (simp add: recordFailedAttempt_def Let_def maxFailedAttempts_def)

lemma resetFailedAttempts_unlocked:
  "failedAttempts (resetFailedAttempts now s) = 0 \<and> \<not> isAccountLocked t (resetFailedAttempts now s)"
  by (simp add: resetFailedAttempts_def isAccountLocked_def)

text \<open>
  Claim C3.  Starting from the Open state, five applications of \<open>recordFailedAttempt\<close>
  (at any instants \<open>t1\<close>, ..., \<open>t5\<close>) give a state whose \<open>lockoutUntil\<close> is the instant
  of the fifth failure plus 15 minutes (900000 ms), and \<open>isAccountLocked\<close> holds at every
  instant strictly before that expiry.
\<close>

theorem five_failures_lock:
  fixes t0 t1 t2 t3 t4 t5 now :: int
  defines "s5 \<equiv> recordFailedAttempt t5 (recordFailedAttempt t4 (recordFailedAttempt t3
                   (recordFailedAttempt t2 (recordFailedAttempt t1 (openState t0)))))"
  shows "failedAttempts s5 = 5
       \<and> lockoutUntil s5 = Some (t5 + 900000)
       \<and> (now < t5 + 900000 \<longrightarrow> isAccountLocked now s5)"
  by (simp add: s5_def recordFailedAttempt_def openState_def isAccountLocked_def
        maxFailedAttempts_def lockoutDuration_def Let_def)

theorem five_failures_lock_witness:
  "(1014 < (1005::int) + 900000) \<and>
   isAccountLocked 1014 (recordFailedAttempt 1005 (recordFailedAttempt 1004 (recordFailedAttempt 1003
       (recordFailedAttempt 1002 (recordFailedAttempt 1001 (openState 1000))))))"
  using five_failures_lock [of 1005 1004 1003 1002 1001 1000 1014] by simp

section \<open>Password hashing: properties\<close>

text \<open>
  Claim C9.  For every plaintext and every digest, well formed or not, and whatever the
  comparison primitive does, \<open>verifyPassword\<close> does not throw: its result is never an
  error, and when the primitive raises an error the result is \<open>false\<close>.
\<close>

theorem verifyPassword_never_throws:
  "(\<forall>e. verifyPassword lib pepper password h \<noteq> Inl e)
   \<and> (\<forall>e. bcrypt_compare lib (password @ pepper) h = Inl e
          \<longrightarrow> verifyPassword lib pepper password h = Inr False)"
  by (simp add: verifyPassword_def split: sum.split)

theorem verifyPassword_never_throws_witness:
  "bcrypt_compare rejectingLib (js ''pw'' @ defaultPepper) (Malformed (js ''not-a-digest'')) = Inl PrimitiveError
   \<and> verifyPassword rejectingLib defaultPepper (js ''pw'') (Malformed (js ''not-a-digest'')) = Inr False"
proof -
  have r: "bcrypt_compare rejectingLib (js ''pw'' @ defaultPepper) (Malformed (js ''not-a-digest''))
             = Inl PrimitiveError"
    by (simp add: rejectingLib_def)
  from verifyPassword_never_throws [of rejectingLib defaultPepper "js ''pw''" "Malformed (js ''not-a-digest'')"] r
  show ?thesis by blast
qed

lemma verifyPassword_result:
  "verifyPassword lib pepper password h = Inr (bcrypt_compare lib (password @ pepper) h = Inr True)"
  by (simp add: verifyPassword_def split: sum.split)

lemma verifyPassword_malformed_bcrypt:
  "verifyPassword (bcrypt eks salt) pepper password (Malformed s) = Inr False"
  by (simp add: verifyPassword_def bcrypt_def)

text \<open>With the bcrypt package hashing does not reject.\<close>

lemma hashPassword_bcrypt:
  "hashPassword (bcrypt eks salt) pepper p
     = Inr (Digest saltRounds salt (eks saltRounds salt (take 72 (utf8 (p @ pepper)))))"
  by (simp add: hashPassword_def bcrypt_def)

text \<open>The round trip: a password verifies against its own digest, whatever the salt.\<close>

lemma verify_own_hash:
  "hashPassword (bcrypt eks salt) pepper p = Inr h
     \<Longrightarrow> verifyPassword (bcrypt eks salt') pepper p h = Inr True"
  by (auto simp: hashPassword_def verifyPassword_def bcrypt_def)

lemma not_surrogate_ascii: "c < 0x80 \<Longrightarrow> \<not> isHighSurrogate (c :: codeUnit)"
  by (simp add: isHighSurrogate_def word_le_nat_alt word_less_nat_alt)

lemma utf8_ascii_Cons: "c < 0x80 \<Longrightarrow> utf8 (c # cs) = ucast c # utf8 cs"
  by (cases cs) (simp_all add: utf8_unit_def not_surrogate_ascii)

lemma utf8_ascii_append:
  "\<forall>c \<in> set p. c < 0x80 \<Longrightarrow> utf8 (p @ q) = map ucast p @ utf8 q"
  by (induction p) (simp_all add: utf8_ascii_Cons)

lemma utf8_ascii_take:
  assumes "\<forall>c \<in> set p. c < 0x80" and "n \<le> length p"
  shows "take n (utf8 (p @ q)) = map ucast (take n p)"
  using assms by (simp add: utf8_ascii_append take_map)

text \<open>
  When the first 72 code units of a password are ASCII, nothing after them reaches the
  hash: neither the rest of the password nor the pepper.
\<close>

lemma bcrypt_ignores_beyond_72:
  assumes "\<forall>c \<in> set p. c < 0x80" and "72 \<le> length p"
  shows "hashPassword (bcrypt eks salt) pepper (p @ rest) = hashPassword (bcrypt eks salt) pepper' p"
  using assms utf8_ascii_take [of p 72 "rest @ pepper"] utf8_ascii_take [of p 72 pepper']
  by (simp add: hashPassword_def bcrypt_def)

lemma longPassword_ascii: "\<forall>c \<in> set longPassword. c < 0x80"
  by (simp add: longPassword_def js_def)

lemma longPassword_length: "length longPassword = 72"
  by (simp add: longPassword_def js_def)

text \<open>
  Claim C8.  The second half of the claim fails for the password of 72 letters \<^verbatim>\<open>a\<close>:
  with any pepper, any salts and any key schedule, that password verifies against the
  digest of the password followed by \<^verbatim>\<open>x\<close>.
\<close>

theorem verify_accepts_extended_long_password:
  "(case hashPassword (bcrypt eks salt) pepper (longPassword @ js ''x'') of
      Inl e \<Rightarrow> Inl e
    | Inr h \<Rightarrow> verifyPassword (bcrypt eks salt') pepper longPassword h) = Inr True"
proof -
  have "hashPassword (bcrypt eks salt) pepper (longPassword @ js ''x'')
          = hashPassword (bcrypt eks salt) pepper longPassword"
    using longPassword_ascii longPassword_length by (intro bcrypt_ignores_beyond_72) simp_all
  moreover obtain h where h: "hashPassword (bcrypt eks salt) pepper longPassword = Inr h"
    by (simp add: hashPassword_def bcrypt_def)
  ultimately show ?thesis
    using verify_own_hash [OF h] by simp
qed

text \<open>
  The same with a password that can be registered: \<open>registrablePassword\<close> followed by
  \<^verbatim>\<open>x\<close> is strong, and once it is the account's password, \<open>registrablePassword\<close>
  itself verifies against its digest.
\<close>

lemma registrablePassword_ascii: "\<forall>c \<in> set registrablePassword. c < 0x80"
  by (simp add: registrablePassword_def js_def)

lemma registrablePassword_length: "length registrablePassword = 72"
  by (simp add: registrablePassword_def js_def)

lemma registrable_long_password_accepted:
  "isStrong (checkPasswordStrength (registrablePassword @ js ''x''))
   \<and> (case hashPassword (bcrypt eks salt) pepper (registrablePassword @ js ''x'') of
         Inl e \<Rightarrow> Inl e
       | Inr h \<Rightarrow> verifyPassword (bcrypt eks salt') pepper registrablePassword h) = Inr True"
proof -
  have s: "isStrong (checkPasswordStrength (registrablePassword @ js ''x''))"
    by code_simp
  have "hashPassword (bcrypt eks salt) pepper (registrablePassword @ js ''x'')
          = hashPassword (bcrypt eks salt) pepper registrablePassword"
    using registrablePassword_ascii registrablePassword_length
    by (intro bcrypt_ignores_beyond_72) simp_all
  moreover obtain h where h: "hashPassword (bcrypt eks salt) pepper registrablePassword = Inr h"
    by (simp add: hashPassword_def bcrypt_def)
  ultimately show ?thesis
    using verify_own_hash [OF h] s by simp
qed

section \<open>Password history: properties\<close>

lemma slice_from_last:
  "0 < n \<Longrightarrow> slice_from (- int n) xs = drop (length xs - n) xs"
  by (auto simp: slice_from_def Let_def max_def nat_diff_distrib')

lemma slice_from_last5: "slice_from (- 5) xs = drop (length xs - 5) xs"
  using slice_from_last [of 5 xs] by simp

text \<open>
  Claim C7.  Whenever hashing the new password succeeds, \<open>addToPasswordHistory\<close> returns
  the last entries of the existing history, in order, followed by the new entry; the
  result has at most 5 entries; and from a history of 5 entries it returns 5 entries,
  the oldest one gone.
\<close>

theorem addToPasswordHistory_keeps_last_five:
  assumes "hashPassword lib pepper password = Inr h"
  shows "\<exists>hist. addToPasswordHistory lib pepper now password (Some existing) = Inr hist
           \<and> hist = drop (length existing - 4) existing @ [\<lparr>passwordHash = h, createdAt = now\<rparr>]
           \<and> length hist \<le> 5
           \<and> last hist = \<lparr>passwordHash = h, createdAt = now\<rparr>
           \<and> (length existing = 5 \<longrightarrow>
                 length hist = 5 \<and> hist = tl existing @ [\<lparr>passwordHash = h, createdAt = now\<rparr>])"
proof -
  let ?e = "\<lparr>passwordHash = h, createdAt = now\<rparr>"
  have eq: "addToPasswordHistory lib pepper now password (Some existing)
              = Inr (drop (length existing - 4) existing @ [?e])"
    using assms by (simp add: addToPasswordHistory_def Let_def slice_from_last5 maxPasswordHistory_def)
  have tl5: "length existing = 5 \<Longrightarrow> drop (length existing - 4) existing = tl existing"
    by (simp add: drop_Suc)
  show ?thesis
    unfolding eq using tl5 by auto
qed

theorem addToPasswordHistory_keeps_last_five_witness:
  "hashPassword exampleLib defaultPepper alicePassword = Inr aliceDigest
   \<and> (\<exists>hist. addToPasswordHistory exampleLib defaultPepper 99 alicePassword
                (Some (map (\<lambda>k. \<lparr>passwordHash = Malformed [], createdAt = k\<rparr>) [1, 2, 3, 4, 5])) = Inr hist
         \<and> hist = map (\<lambda>k. \<lparr>passwordHash = Malformed [], createdAt = k\<rparr>) [2, 3, 4, 5]
                    @ [\<lparr>passwordHash = aliceDigest, createdAt = 99\<rparr>])"
proof -
  have h: "hashPassword exampleLib defaultPepper alicePassword = Inr aliceDigest"
    by code_simp
  from addToPasswordHistory_keeps_last_five [OF h, of 99 "map (\<lambda>k. \<lparr>passwordHash = Malformed [], createdAt = k\<rparr>) [1, 2, 3, 4, 5]"]
  show ?thesis using h by auto
qed

lemma addToPasswordHistory_default:
  "addToPasswordHistory lib pepper now password None = addToPasswordHistory lib pepper now password (Some [])"
  by (simp add: addToPasswordHistory_def cong: sum.case_cong)

lemma addToPasswordHistory_propagates_rejection:
  "hashPassword lib pepper password = Inl e
     \<Longrightarrow> addToPasswordHistory lib pepper now password existing = Inl e"
  by (simp add: addToPasswordHistory_def)


section \<open>The login route: properties\<close>

lemma ceilDiv_pos: "0 < a \<Longrightarrow> 0 < b \<Longrightarrow> 0 < ceilDiv a b"
  by (simp add: ceilDiv_def pos_imp_zdiv_neg_iff)

text \<open>
  Claim C2.  When the account a login request names is found with \<open>lockoutUntil\<close> set and
  in the future at the instant the handler checks it, the handler answers 423 with the
  remaining lockout time in minutes, whatever the password is; its only call to a
  collaborator is the lookup, so password verification is not reached, and the answer
  is not a success.
\<close>

theorem locked_login_rejected:
  assumes "find (\<lambda>u. username u = uname \<and> accountNumber u = acct) db = Some user"
      and "lockoutUntil (lockoutInfo user) = Some until"
      and "clock 0 < until"
  shows "reply (loginHandler lib pepper clock regenerateOk (Some (LoginData uname acct password)) db)
           = \<lparr>status = 423,
              payload = Locked ''Account temporarily locked due to too many failed attempts''
                       (ceilDiv (max 0 (until - clock 1)) 60000)\<rparr>
       \<and> calls (loginHandler lib pepper clock regenerateOk (Some (LoginData uname acct password)) db)
           = [FindOne]
       \<and> status (reply (loginHandler lib pepper clock regenerateOk
                    (Some (LoginData uname acct password)) db)) \<noteq> 200"
  using assms
  by (simp add: loginHandler_def isAccountLocked_def getLockoutTimeRemaining_def Let_def)

theorem locked_login_rejected_witness:
  "find (\<lambda>u. username u = js ''alice'' \<and> accountNumber u = js ''12345678'') [aliceLocked] = Some aliceLocked
   \<and> lockoutUntil (lockoutInfo aliceLocked) = Some 2000000
   \<and> exampleClock 0 < 2000000
   \<and> verifyPassword exampleLib defaultPepper alicePassword (userPasswordHash aliceLocked) = Inr True
   \<and> reply (loginHandler exampleLib defaultPepper exampleClock True
              (Some (LoginData (js ''alice'') (js ''12345678'') alicePassword)) [aliceLocked])
        = \<lparr>status = 423,
           payload = Locked ''Account temporarily locked due to too many failed attempts'' 9\<rparr>"
proof -
  have f: "find (\<lambda>u. username u = js ''alice'' \<and> accountNumber u = js ''12345678'') [aliceLocked]
             = Some aliceLocked"
    by (simp add: aliceLocked_def)
  have u: "lockoutUntil (lockoutInfo aliceLocked) = Some 2000000"
    by (simp add: aliceLocked_def)
  have c: "exampleClock 0 < 2000000"
    by (simp add: exampleClock_def)
  have v: "verifyPassword exampleLib defaultPepper alicePassword (userPasswordHash aliceLocked) = Inr True"
    by code_simp
  have m: "ceilDiv (max 0 (2000000 - exampleClock 1)) 60000 = 9"
    by (simp add: exampleClock_def ceilDiv_def)
  from locked_login_rejected [where clock = exampleClock and lib = exampleLib and pepper = defaultPepper
         and regenerateOk = True and password = alicePassword, OF f u c] f u c v m
  show ?thesis by simp
qed

text \<open>
  Claim C4, as the code has it.  A login attempt for an account that is locked
  (\<open>lockoutUntil\<close> set and in the future) is answered before \<open>recordFailedAttempt\<close>: no
  lockout record is written, and the stored accounts, the failed-attempt counter among
  them, are as they were.  The answer is 423, and the only call to a collaborator is the
  lookup, so password verification is not reached either.
\<close>

theorem locked_login_leaves_counter:
  assumes "find (\<lambda>u. username u = uname \<and> accountNumber u = acct) db = Some user"
      and "lockoutUntil (lockoutInfo user) = Some until"
      and "clock 0 < until"
  shows "users (loginHandler lib pepper clock regenerateOk (Some (LoginData uname acct password)) db) = db
       \<and> (\<forall>i li. UpdateLockout i li \<notin>
             set (calls (loginHandler lib pepper clock regenerateOk (Some (LoginData uname acct password)) db)))
       \<and> status (reply (loginHandler lib pepper clock regenerateOk
                    (Some (LoginData uname acct password)) db)) = 423
       \<and> calls (loginHandler lib pepper clock regenerateOk (Some (LoginData uname acct password)) db)
           = [FindOne]"
  using assms
  by (simp add: loginHandler_def isAccountLocked_def Let_def)

theorem locked_login_leaves_counter_witness:
  "find (\<lambda>u. username u = js ''alice'' \<and> accountNumber u = js ''12345678'') [aliceLocked] = Some aliceLocked
   \<and> lockoutUntil (lockoutInfo aliceLocked) = Some 2000000
   \<and> exampleClock 0 < 2000000
   \<and> users (loginHandler exampleLib defaultPepper exampleClock True
              (Some (LoginData (js ''alice'') (js ''12345678'') (js ''guess''))) [aliceLocked])
        = [aliceLocked]"
proof -
  have f: "find (\<lambda>u. username u = js ''alice'' \<and> accountNumber u = js ''12345678'') [aliceLocked]
             = Some aliceLocked"
    by (simp add: aliceLocked_def)
  have u: "lockoutUntil (lockoutInfo aliceLocked) = Some 2000000"
    by (simp add: aliceLocked_def)
  have c: "exampleClock 0 < 2000000"
    by (simp add: exampleClock_def)
  from locked_login_leaves_counter [where clock = exampleClock and lib = exampleLib
         and pepper = defaultPepper and regenerateOk = True and password = "js ''guess''", OF f u c] f u c
  show ?thesis by simp
qed

text \<open>
  The claim as stated fails: \<open>aliceLocked\<close> has 5 failed attempts and is locked at the
  instant of the request; after a login attempt with a wrong password the stored counter
  is 5, not 6.
\<close>

theorem locked_login_increment_counterexample:
  "isAccountLocked (exampleClock 0) (lockoutInfo aliceLocked)
   \<and> failedAttempts (lockoutInfo aliceLocked) = 5
   \<and> map failedAttempts (map lockoutInfo
        (users (loginHandler exampleLib defaultPepper exampleClock True (Some wrongLogin) [aliceLocked])))
      = [5]"
  by (simp add: loginHandler_def wrongLogin_def aliceLocked_def isAccountLocked_def exampleClock_def Let_def)


text \<open>A failed attempt on an account that is not locked is recorded on the stored account.\<close>

lemma failed_login_recorded:
  assumes "find (\<lambda>u. username u = uname \<and> accountNumber u = acct) db = Some user"
      and "\<not> isAccountLocked (clock 0) (lockoutInfo user)"
      and "verifyPassword lib pepper password (userPasswordHash user) = Inr False"
  shows "users (loginHandler lib pepper clock regenerateOk (Some (LoginData uname acct password)) db)
           = findByIdAndUpdate (userId user)
               (recordFailedAttempt (clock (datesRead (lockoutInfo user))) (lockoutInfo user)) db"
  using assms by (simp add: loginHandler_def Let_def)

text \<open>A successful login on an account that is not locked resets the stored record.\<close>

lemma successful_login_resets:
  assumes "find (\<lambda>u. username u = uname \<and> accountNumber u = acct) db = Some user"
      and "\<not> isAccountLocked (clock 0) (lockoutInfo user)"
      and "verifyPassword lib pepper password (userPasswordHash user) = Inr True"
  shows "users (loginHandler lib pepper clock regenerateOk (Some (LoginData uname acct password)) db)
           = findByIdAndUpdate (userId user)
               (resetFailedAttempts (clock (datesRead (lockoutInfo user))) (lockoutInfo user)) db"
  using assms by (simp add: loginHandler_def Let_def)

lemma find_after_update:
  assumes "find P db = Some user"
      and "\<And>u li. P (u\<lparr>lockoutInfo := li\<rparr>) = P u"
      and "\<forall>u \<in> set db. userId u = userId user \<longrightarrow> u = user"
  shows "find P (findByIdAndUpdate (userId user) li db) = Some (user\<lparr>lockoutInfo := li\<rparr>)"
  using assms
proof (induction db)
  case Nil
  then show ?case by simp
next
  case (Cons u us)
  show ?case
  proof (cases "P u")
    case True
    with Cons.prems(1) have "u = user" by simp
    with True Cons.prems(2) show ?thesis by simp
  next
    case False
    with Cons.prems(1) have f: "find P us = Some user" by simp
    then have "P user" by (auto simp: find_Some_iff)
    with False have "u \<noteq> user" by auto
    with Cons.prems(3) have ne: "userId u \<noteq> userId user" by auto
    from Cons.IH [OF f Cons.prems(2)] Cons.prems(3) have "find P (findByIdAndUpdate (userId user) li us) = Some (user\<lparr>lockoutInfo := li\<rparr>)"
      by simp
    with ne False show ?thesis by simp
  qed
qed


lemma findByIdAndUpdate_ids: "map userId (findByIdAndUpdate i li db) = map userId db"
  by (induction db) simp_all

lemma distinct_ids_unique:
  assumes "distinct (map userId db)" and "user \<in> set db"
  shows "\<forall>u \<in> set db. userId u = userId user \<longrightarrow> u = user"
  using assms by (auto simp: distinct_map dest: inj_onD)

lemma failed_login_step:
  assumes d: "distinct (map userId db)"
      and f: "find (\<lambda>u. username u = uname \<and> accountNumber u = acct) db = Some user"
      and n: "lockoutUntil (lockoutInfo user) = None"
      and v: "verifyPassword lib pepper password (userPasswordHash user) = Inr False"
  shows "distinct (map userId
           (users (loginHandler lib pepper clock regenerateOk (Some (LoginData uname acct password)) db)))
       \<and> find (\<lambda>u. username u = uname \<and> accountNumber u = acct)
           (users (loginHandler lib pepper clock regenerateOk (Some (LoginData uname acct password)) db))
           = Some (user\<lparr>lockoutInfo := recordFailedAttempt (clock 0) (lockoutInfo user)\<rparr>)"
proof -
  let ?db' = "users (loginHandler lib pepper clock regenerateOk (Some (LoginData uname acct password)) db)"
  from n have nl: "\<not> isAccountLocked (clock 0) (lockoutInfo user)"
    by (simp add: isAccountLocked_def)
  have eq: "?db' = findByIdAndUpdate (userId user) (recordFailedAttempt (clock 0) (lockoutInfo user)) db"
    using failed_login_recorded [where clock = clock and regenerateOk = regenerateOk, OF f nl v] n
    by (simp add: datesRead_def)
  from f have "user \<in> set db" by (auto simp: find_Some_iff)
  with d have u: "\<forall>u \<in> set db. userId u = userId user \<longrightarrow> u = user"
    by (rule distinct_ids_unique)
  have "find (\<lambda>u. username u = uname \<and> accountNumber u = acct) ?db'
          = Some (user\<lparr>lockoutInfo := recordFailedAttempt (clock 0) (lockoutInfo user)\<rparr>)"
    unfolding eq using f _ u by (rule find_after_update) simp
  with d show ?thesis by (simp add: eq findByIdAndUpdate_ids)
qed

text \<open>
  Scenario B for any account that starts with no failure recorded and no lockout: five
  logins whose password does not verify, then a sixth request, with any password, before
  the lockout set by the fifth has expired.  The fifth failure is recorded at the first
  instant \<open>c5 0\<close> of its request, so the lockout lasts until \<open>c5 0 + 900000\<close>.  The sixth
  request gets the locked response, and its only call to a collaborator is the lookup.
\<close>

lemma five_failed_logins_then_locked:
  fixes c1 c2 c3 c4 c5 c6 :: "nat \<Rightarrow> int"
  assumes d: "distinct (map userId db)"
      and f: "find (\<lambda>u. username u = uname \<and> accountNumber u = acct) db = Some user"
      and o: "failedAttempts (lockoutInfo user) = 0" "lockoutUntil (lockoutInfo user) = None"
      and v: "verifyPassword lib pepper p1 (userPasswordHash user) = Inr False"
             "verifyPassword lib pepper p2 (userPasswordHash user) = Inr False"
             "verifyPassword lib pepper p3 (userPasswordHash user) = Inr False"
             "verifyPassword lib pepper p4 (userPasswordHash user) = Inr False"
             "verifyPassword lib pepper p5 (userPasswordHash user) = Inr False"
      and t: "c6 0 < c5 0 + 900000"
  defines "after c p \<equiv> (\<lambda>db. users (loginHandler lib pepper c True (Some (LoginData uname acct p)) db))"
  shows "reply (loginHandler lib pepper c6 True (Some (LoginData uname acct p6))
                 (after c5 p5 (after c4 p4 (after c3 p3 (after c2 p2 (after c1 p1 db))))))
           = \<lparr>status = 423,
              payload = Locked ''Account temporarily locked due to too many failed attempts''
                          (ceilDiv (max 0 (c5 0 + 900000 - c6 1)) 60000)\<rparr>
       \<and> calls (loginHandler lib pepper c6 True (Some (LoginData uname acct p6))
                 (after c5 p5 (after c4 p4 (after c3 p3 (after c2 p2 (after c1 p1 db))))))
           = [FindOne]"
proof -
  let ?P = "\<lambda>u. username u = uname \<and> accountNumber u = acct"
  define s1 where "s1 = recordFailedAttempt (c1 0) (lockoutInfo user)"
  define s2 where "s2 = recordFailedAttempt (c2 0) s1"
  define s3 where "s3 = recordFailedAttempt (c3 0) s2"
  define s4 where "s4 = recordFailedAttempt (c4 0) s3"
  define s5 where "s5 = recordFailedAttempt (c5 0) s4"
  have n1: "lockoutUntil s1 = None" and n2: "lockoutUntil s2 = None"
    and n3: "lockoutUntil s3 = None" and n4: "lockoutUntil s4 = None"
    and l5: "lockoutUntil s5 = Some (c5 0 + 900000)"
    using o by (simp_all add: s1_def s2_def s3_def s4_def s5_def recordFailedAttempt_def Let_def
                  maxFailedAttempts_def lockoutDuration_def)
  have 1: "distinct (map userId (after c1 p1 db)) \<and> find ?P (after c1 p1 db) = Some (user\<lparr>lockoutInfo := s1\<rparr>)"
    unfolding after_def s1_def using d f o(2) v(1) by (rule failed_login_step)
  have 2: "distinct (map userId (after c2 p2 (after c1 p1 db)))
           \<and> find ?P (after c2 p2 (after c1 p1 db)) = Some (user\<lparr>lockoutInfo := s2\<rparr>)"
    using failed_login_step [of "after c1 p1 db" uname acct "user\<lparr>lockoutInfo := s1\<rparr>" lib pepper p2 c2 True]
      1 n1 v(2) by (simp add: after_def s2_def)
  have 3: "distinct (map userId (after c3 p3 (after c2 p2 (after c1 p1 db))))
           \<and> find ?P (after c3 p3 (after c2 p2 (after c1 p1 db))) = Some (user\<lparr>lockoutInfo := s3\<rparr>)"
    using failed_login_step [of "after c2 p2 (after c1 p1 db)" uname acct "user\<lparr>lockoutInfo := s2\<rparr>" lib pepper p3 c3 True]
      2 n2 v(3) by (simp add: after_def s3_def)
  have 4: "distinct (map userId (after c4 p4 (after c3 p3 (after c2 p2 (after c1 p1 db)))))
           \<and> find ?P (after c4 p4 (after c3 p3 (after c2 p2 (after c1 p1 db)))) = Some (user\<lparr>lockoutInfo := s4\<rparr>)"
    using failed_login_step [of "after c3 p3 (after c2 p2 (after c1 p1 db))" uname acct "user\<lparr>lockoutInfo := s3\<rparr>" lib pepper p4 c4 True]
      3 n3 v(4) by (simp add: after_def s4_def)
  have 5: "find ?P (after c5 p5 (after c4 p4 (after c3 p3 (after c2 p2 (after c1 p1 db))))) = Some (user\<lparr>lockoutInfo := s5\<rparr>)"
    using failed_login_step [of "after c4 p4 (after c3 p3 (after c2 p2 (after c1 p1 db)))" uname acct "user\<lparr>lockoutInfo := s4\<rparr>" lib pepper p5 c5 True]
      4 n4 v(5) by (simp add: after_def s5_def)
  from 5 l5 t show ?thesis
    by (simp add: loginHandler_def isAccountLocked_def getLockoutTimeRemaining_def Let_def)
qed


text \<open>
  The lockout runs from the first instant of the fifth failed request.  On the example
  account, with the fifth failure at instants 1500000, 1500001 and the right password
  at 2400000, the lockout has just expired and the sixth request logs in.
\<close>

lemma login_at_expiry:
  "fst (loginSequence exampleLib defaultPepper
      [(\<lambda>k. 1000001, wrongLogin), (\<lambda>k. 1000002, wrongLogin), (\<lambda>k. 1000003, wrongLogin),
       (\<lambda>k. 1000004, wrongLogin), (exampleClock, wrongLogin), (\<lambda>k. 2400000, aliceLogin)] [aliceOpen])
   = [\<lparr>status = 401, payload = ErrorMessage ''Invalid credentials''\<rparr>,
      \<lparr>status = 401, payload = ErrorMessage ''Invalid credentials''\<rparr>,
      \<lparr>status = 401, payload = ErrorMessage ''Invalid credentials''\<rparr>,
      \<lparr>status = 401, payload = ErrorMessage ''Invalid credentials''\<rparr>,
      \<lparr>status = 423, payload = Locked ''Account locked due to too many failed attempts'' 15\<rparr>,
      \<lparr>status = 200, payload = LoggedIn (js ''alice'') (js ''Alice A'') (js ''12345678'')\<rparr>]"
  by code_simp

text \<open>
  Scenario B on the example account: five logins with a wrong password, then one with
  the right password, all within the lockout window.
\<close>

lemma scenario_B:
  "fst (loginSequence exampleLib defaultPepper
      [(\<lambda>k. 1000001, wrongLogin), (\<lambda>k. 1000002, wrongLogin), (\<lambda>k. 1000003, wrongLogin),
       (\<lambda>k. 1000004, wrongLogin), (\<lambda>k. 1000005, wrongLogin), (\<lambda>k. 1000006, aliceLogin)] [aliceOpen])
   = [\<lparr>status = 401, payload = ErrorMessage ''Invalid credentials''\<rparr>,
      \<lparr>status = 401, payload = ErrorMessage ''Invalid credentials''\<rparr>,
      \<lparr>status = 401, payload = ErrorMessage ''Invalid credentials''\<rparr>,
      \<lparr>status = 401, payload = ErrorMessage ''Invalid credentials''\<rparr>,
      \<lparr>status = 423, payload = Locked ''Account locked due to too many failed attempts'' 15\<rparr>,
      \<lparr>status = 423, payload = Locked ''Account temporarily locked due to too many failed attempts'' 15\<rparr>]"
  by code_simp


section \<open>The employee login route: properties\<close>

lemma find_map_lockout:
  assumes "\<And>u. P (g u) = P u"
  shows "find P (map g db) = map_option g (find P db)"
  using assms by (induction db) simp_all

lemma employee_users: "users (employeeLoginHandler lib pepper regenerateOk parsed db) = db"
  by (simp add: employeeLoginHandler_def Let_def split: option.split employeeLoginData.split sum.split)

lemma employee_calls:
  "UpdateLockout i li \<notin> set (calls (employeeLoginHandler lib pepper regenerateOk parsed db))"
  by (simp add: employeeLoginHandler_def Let_def split: option.split employeeLoginData.split sum.split)

lemma employee_reply_independent:
  "reply (employeeLoginHandler lib pepper regenerateOk parsed (map (\<lambda>u. u\<lparr>lockoutInfo := f u\<rparr>) db))
     = reply (employeeLoginHandler lib pepper regenerateOk parsed db)"
proof (cases parsed)
  case None
  then show ?thesis by (simp add: employeeLoginHandler_def)
next
  case (Some d)
  obtain emp password where d: "d = EmployeeLoginData emp password" by (cases d)
  have "find (\<lambda>u. username u = emp \<or> idNumber u = emp) (map (\<lambda>u. u\<lparr>lockoutInfo := f u\<rparr>) db)
          = map_option (\<lambda>u. u\<lparr>lockoutInfo := f u\<rparr>) (find (\<lambda>u. username u = emp \<or> idNumber u = emp) db)"
    by (rule find_map_lockout) simp
  then show ?thesis
    by (simp add: Some d employeeLoginHandler_def Let_def split: option.split sum.split)
qed

lemma employee_failed_401:
  assumes "find (\<lambda>u. username u = emp \<or> idNumber u = emp) db = Some user"
      and "verifyPassword lib pepper password (userPasswordHash user) = Inr False"
  shows "reply (employeeLoginHandler lib pepper regenerateOk (Some (EmployeeLoginData emp password)) db)
           = \<lparr>status = 401, payload = ErrorMessage ''Invalid credentials''\<rparr>"
  using assms by (simp add: employeeLoginHandler_def)

lemma employee_repeated:
  "((\<lambda>d. users (employeeLoginHandler lib pepper regenerateOk parsed d)) ^^ n) db = db"
  by (induction n) (simp_all add: employee_users)


text \<open>
  Claim C10.  For every employee-login request the handler leaves the stored accounts
  as they are and writes no lockout record; its reply is the same whatever the lockout
  records of the accounts hold; and when the account is found and the password does
  not verify, the reply is 401.  So no number of failed employee logins locks an
  account (\<open>employee_repeated\<close>), where a failed customer login is recorded
  (\<open>failed_login_recorded\<close>).
\<close>

theorem employee_login_ignores_lockout:
  "users (employeeLoginHandler lib pepper regenerateOk parsed db) = db
   \<and> (\<forall>i li. UpdateLockout i li \<notin> set (calls (employeeLoginHandler lib pepper regenerateOk parsed db)))
   \<and> reply (employeeLoginHandler lib pepper regenerateOk parsed (map (\<lambda>u. u\<lparr>lockoutInfo := f u\<rparr>) db))
       = reply (employeeLoginHandler lib pepper regenerateOk parsed db)
   \<and> (\<forall>emp password user.
         parsed = Some (EmployeeLoginData emp password)
         \<longrightarrow> find (\<lambda>u. username u = emp \<or> idNumber u = emp) db = Some user
         \<longrightarrow> verifyPassword lib pepper password (userPasswordHash user) = Inr False
         \<longrightarrow> reply (employeeLoginHandler lib pepper regenerateOk parsed db)
               = \<lparr>status = 401, payload = ErrorMessage ''Invalid credentials''\<rparr>)"
  by (intro conjI allI impI)
     (simp_all add: employee_users employee_calls employee_reply_independent employee_failed_401)

theorem employee_login_ignores_lockout_witness:
  "find (\<lambda>u. username u = js ''alice'' \<or> idNumber u = js ''alice'') [aliceLocked] = Some aliceLocked
   \<and> verifyPassword exampleLib defaultPepper (js ''guess'') (userPasswordHash aliceLocked) = Inr False
   \<and> reply (employeeLoginHandler exampleLib defaultPepper True
              (Some (EmployeeLoginData (js ''alice'') (js ''guess''))) [aliceLocked])
        = \<lparr>status = 401, payload = ErrorMessage ''Invalid credentials''\<rparr>
   \<and> users (employeeLoginHandler exampleLib defaultPepper True
              (Some (EmployeeLoginData (js ''alice'') (js ''guess''))) [aliceLocked])
        = [aliceLocked]"
proof -
  have f: "find (\<lambda>u. username u = js ''alice'' \<or> idNumber u = js ''alice'') [aliceLocked] = Some aliceLocked"
    by (simp add: aliceLocked_def)
  have v: "verifyPassword exampleLib defaultPepper (js ''guess'') (userPasswordHash aliceLocked) = Inr False"
    by code_simp
  from employee_login_ignores_lockout [of exampleLib defaultPepper True
         "Some (EmployeeLoginData (js ''alice'') (js ''guess''))" "[aliceLocked]"] f v
  show ?thesis by blast
qed


section \<open>Rate limiter: properties\<close>

lemma enhancedRateLimit_own:
  "snd (enhancedRateLimit key now requests) key = stepWindow now (requests key)"
  by (simp add: enhancedRateLimit_def stepWindow_def split: option.split)

lemma enhancedRateLimit_other:
  "key' \<noteq> key \<Longrightarrow> snd (enhancedRateLimit key' now requests) key = requests key"
  by (simp add: enhancedRateLimit_def split: option.split)

lemma rateLimitAll_window:
  "rateLimitAll rs requests key = fold stepWindow (checksOf key rs) (requests key)"
proof (induction rs arbitrary: requests)
  case Nil
  then show ?case by (simp add: checksOf_def)
next
  case (Cons r rs)
  obtain key' now where r: "r = (key', now)" by (cases r)
  show ?case
  proof (cases "key' = key")
    case True
    then show ?thesis using Cons.IH by (simp add: r checksOf_def enhancedRateLimit_own)
  next
    case False
    then show ?thesis using Cons.IH by (simp add: r checksOf_def enhancedRateLimit_other)
  qed
qed

lemma stepWindow_open:
  "w = None \<or> (\<exists>c. w = Some c \<and> now > resetTime c)
     \<Longrightarrow> stepWindow now w = Some \<lparr>count = 1, resetTime = now + windowMs\<rparr>"
  by (auto simp: stepWindow_def)

lemma fold_stepWindow_inside:
  assumes "\<forall>t \<in> set ts. t \<le> r" and "c + int (length ts) \<le> maxRequests"
  shows "fold stepWindow ts (Some \<lparr>count = c, resetTime = r\<rparr>)
           = Some \<lparr>count = c + int (length ts), resetTime = r\<rparr>"
  using assms
proof (induction ts arbitrary: c)
  case Nil
  then show ?case by simp
next
  case (Cons t ts)
  from Cons.prems have s: "stepWindow t (Some \<lparr>count = c, resetTime = r\<rparr>) = Some \<lparr>count = c + 1, resetTime = r\<rparr>"
    by (simp add: stepWindow_def)
  from Cons.prems have "c + 1 + int (length ts) \<le> maxRequests" by simp
  with Cons.IH [of "c + 1"] Cons.prems(1) show ?case
    by (simp add: s add.assoc)
qed

lemma hundred_checks_fill_window:
  assumes first: "requests key = None \<or> (\<exists>c. requests key = Some c \<and> t0 > resetTime c)"
      and checks: "checksOf key rs = t0 # ts" and n: "length ts = 99"
      and inside: "\<forall>t \<in> set ts. t \<le> t0 + windowMs"
  shows "rateLimitAll rs requests key = Some \<lparr>count = 100, resetTime = t0 + windowMs\<rparr>"
proof -
  have "rateLimitAll rs requests key = fold stepWindow ts (stepWindow t0 (requests key))"
    by (simp add: rateLimitAll_window checks)
  also have "\<dots> = fold stepWindow ts (Some \<lparr>count = 1, resetTime = t0 + windowMs\<rparr>)"
    using stepWindow_open [OF first] by simp
  also have "\<dots> = Some \<lparr>count = 1 + int (length ts), resetTime = t0 + windowMs\<rparr>"
    using inside n by (intro fold_stepWindow_inside) (simp_all add: maxRequests_def)
  finally show ?thesis using n by simp
qed

text \<open>
  At the instant \<open>resetTime\<close> itself the window is still the current one: a full window
  answers 429 there, with \<^verbatim>\<open>retryAfter\<close> 0.  After it, any check starts a fresh window.
\<close>

lemma rate_limit_boundary:
  assumes "requests key = Some \<lparr>count = 100, resetTime = r\<rparr>"
  shows "enhancedRateLimit key r requests = (TooManyRequests 0, requests)"
  using assms by (simp add: enhancedRateLimit_def maxRequests_def ceilDiv_def)

lemma rate_limit_fresh:
  assumes "requests key = Some w" and "now > resetTime w"
  shows "enhancedRateLimit key now requests = (Next, requests(key \<mapsto> \<lparr>count = 1, resetTime = now + windowMs\<rparr>))"
  using assms by (simp add: enhancedRateLimit_def)



lemma ceilDiv_pos_iff: "0 < b \<Longrightarrow> 0 < ceilDiv a b \<longleftrightarrow> 0 < a"
  by (simp add: ceilDiv_def pos_imp_zdiv_neg_iff)

lemma exampleTraffic_checks:
  "checksOf (js ''fp-a'') exampleTraffic = 1000 # map (\<lambda>i. 1000 + int i) [1..<100]"
  by code_simp

lemma exampleTraffic_window:
  "rateLimitAll exampleTraffic Map.empty (js ''fp-a'') = Some \<lparr>count = 100, resetTime = 1000 + windowMs\<rparr>"
proof (rule hundred_checks_fill_window [OF _ exampleTraffic_checks])
  show "(Map.empty :: jsstring \<rightharpoonup> RateWindow) (js ''fp-a'') = None
          \<or> (\<exists>c. (Map.empty :: jsstring \<rightharpoonup> RateWindow) (js ''fp-a'') = Some c \<and> 1000 > resetTime c)"
    by simp
  show "length (map (\<lambda>i. 1000 + int i) [1..<100]) = 99" by simp
  show "\<forall>t \<in> set (map (\<lambda>i. 1000 + int i) [1..<100]). t \<le> 1000 + windowMs"
    by (auto simp: windowMs_def)
qed

text \<open>
  Claim C5, as the code has it.  Take any traffic \<open>rs\<close> in which the fingerprint \<open>key\<close>
  is checked 100 times, the first check starting a window (no entry, or an expired one)
  at instant \<open>t0\<close> and the others no later than \<open>resetTime\<close>, which is \<open>t0 + windowMs\<close>.
  Then a 101st check at an instant \<open>now\<close> no later than \<open>resetTime\<close> is answered 429 with
  \<^verbatim>\<open>retryAfter\<close> the number of seconds (rounded up) until \<open>resetTime\<close>, and leaves the map
  as it is; that number is strictly positive exactly when \<open>now\<close> is before \<open>resetTime\<close>,
  and is 0 at \<open>resetTime\<close> itself.  A check after \<open>resetTime\<close> is handed on and starts
  a fresh window with count 1.
\<close>

theorem rate_limit_window:
  assumes first: "requests key = None \<or> (\<exists>c. requests key = Some c \<and> t0 > resetTime c)"
      and checks: "checksOf key rs = t0 # ts" and n: "length ts = 99"
      and inside: "\<forall>t \<in> set ts. t \<le> t0 + windowMs"
  shows "(now \<le> t0 + windowMs \<longrightarrow>
            enhancedRateLimit key now (rateLimitAll rs requests)
              = (TooManyRequests (ceilDiv (t0 + windowMs - now) 1000), rateLimitAll rs requests)
            \<and> (0 < ceilDiv (t0 + windowMs - now) 1000 \<longleftrightarrow> now < t0 + windowMs)
            \<and> (now = t0 + windowMs \<longrightarrow> ceilDiv (t0 + windowMs - now) 1000 = 0))
       \<and> (now > t0 + windowMs \<longrightarrow>
            enhancedRateLimit key now (rateLimitAll rs requests)
              = (Next, (rateLimitAll rs requests)(key \<mapsto> \<lparr>count = 1, resetTime = now + windowMs\<rparr>)))"
proof -
  have w: "rateLimitAll rs requests key = Some \<lparr>count = 100, resetTime = t0 + windowMs\<rparr>"
    using assms by (rule hundred_checks_fill_window)
  have p: "0 < ceilDiv (t0 + windowMs - now) 1000 \<longleftrightarrow> now < t0 + windowMs"
    by (simp add: ceilDiv_pos_iff)
  have z: "now = t0 + windowMs \<Longrightarrow> ceilDiv (t0 + windowMs - now) 1000 = 0"
    by (simp add: ceilDiv_def)
  show ?thesis
    using p z by (simp add: enhancedRateLimit_def w maxRequests_def)
qed

theorem rate_limit_window_witness:
  "(Map.empty :: jsstring \<rightharpoonup> RateWindow) (js ''fp-a'') = None
   \<and> checksOf (js ''fp-a'') exampleTraffic = 1000 # map (\<lambda>i. 1000 + int i) [1..<100]
   \<and> length (map (\<lambda>i. 1000 + int i) [1..<100]) = 99
   \<and> Max (set (map (\<lambda>i. 1000 + int i) [1..<100])) \<le> 1000 + windowMs
   \<and> 2000 < 1000 + windowMs \<and> 901001 > 1000 + windowMs
   \<and> fst (enhancedRateLimit (js ''fp-a'') 2000 (rateLimitAll exampleTraffic Map.empty)) = TooManyRequests 899
   \<and> fst (enhancedRateLimit (js ''fp-a'') 901001 (rateLimitAll exampleTraffic Map.empty)) = Next"
proof -
  let ?ts = "map (\<lambda>i. 1000 + int i) [1..<100]"
  have a: "(Map.empty :: jsstring \<rightharpoonup> RateWindow) (js ''fp-a'') = None
             \<or> (\<exists>c. (Map.empty :: jsstring \<rightharpoonup> RateWindow) (js ''fp-a'') = Some c \<and> 1000 > resetTime c)"
    by simp
  have b: "checksOf (js ''fp-a'') exampleTraffic = 1000 # ?ts"
    by (rule exampleTraffic_checks)
  have c: "length ?ts = 99" by simp
  have d: "\<forall>t \<in> set ?ts. t \<le> 1000 + windowMs"
    by (auto simp: windowMs_def)
  have e: "(2000::int) < 1000 + windowMs" "(901001::int) > 1000 + windowMs"
    by (simp_all add: windowMs_def)
  have f: "ceilDiv (1000 + windowMs - 2000) 1000 = 899"
    by (simp add: windowMs_def ceilDiv_def)
  have g: "Max (set ?ts) \<le> 1000 + windowMs"
    using d by (subst Max_le_iff) simp_all
  from rate_limit_window [OF a b c d, of 2000] rate_limit_window [OF a b c d, of 901001] b c e f g
  show ?thesis by simp
qed

text \<open>
  The claim as stated fails at the instant \<open>resetTime\<close>.  In \<open>exampleTraffic\<close> the
  fingerprint \<^verbatim>\<open>fp-a\<close> is checked 100 times from instant 1000 on, so its window is full
  and ends at 901000.  The 101st check at 901000 is not after \<open>resetTime\<close>, so the window
  is still the current one: the check is answered 429, not handed on, and its
  \<^verbatim>\<open>retryAfter\<close> is 0, not strictly positive.
\<close>

theorem rate_limit_boundary_counterexample:
  "rateLimitAll exampleTraffic Map.empty (js ''fp-a'') = Some \<lparr>count = 100, resetTime = 901000\<rparr>
   \<and> fst (enhancedRateLimit (js ''fp-a'') 901000 (rateLimitAll exampleTraffic Map.empty))
       = TooManyRequests 0"
proof -
  have w: "rateLimitAll exampleTraffic Map.empty (js ''fp-a'') = Some \<lparr>count = 100, resetTime = 901000\<rparr>"
    using exampleTraffic_window by (simp add: windowMs_def)
  from rate_limit_boundary [where requests = "rateLimitAll exampleTraffic Map.empty"
         and key = "js ''fp-a''" and r = 901000] w
  show ?thesis by simp
qed


section \<open>Honeypot fields: properties\<close>

lemma honeypotLoop_iff:
  assumes "\<forall>f \<in> set fs. \<forall>v. getProp body f = Some v \<longrightarrow> truthy v \<longrightarrow> (\<exists>s. toStringJ v = Inr s)"
  shows "honeypotLoop body fs
           = Inr (\<exists>f \<in> set fs. \<exists>v s. getProp body f = Some v \<and> truthy v \<and> toStringJ v = Inr s \<and> trim s \<noteq> [])"
  using assms
proof (induction fs)
  case Nil
  then show ?case by simp
next
  case (Cons f fs)
  then have IH: "honeypotLoop body fs
           = Inr (\<exists>f \<in> set fs. \<exists>v s. getProp body f = Some v \<and> truthy v \<and> toStringJ v = Inr s \<and> trim s \<noteq> [])"
    by simp
  show ?case
  proof (cases "getProp body f")
    case None
    then show ?thesis using IH by simp
  next
    case (Some v)
    show ?thesis
    proof (cases "truthy v")
      case False
      then show ?thesis using IH Some by simp
    next
      case True
      with Cons.prems Some obtain s where s: "toStringJ v = Inr s" by auto
      show ?thesis using IH Some True s by auto
    qed
  qed
qed

lemma trim_nonempty_iff: "trim s \<noteq> [] \<longleftrightarrow> (\<exists>c \<in> set s. \<not> isWhiteSpace c)"
proof -
  let ?d = "dropWhile isWhiteSpace s"
  have "(\<forall>x \<in> set ?d. isWhiteSpace x) \<longleftrightarrow> ?d = []"
  proof
    assume a: "\<forall>x \<in> set ?d. isWhiteSpace x"
    show "?d = []"
    proof (rule ccontr)
      assume "?d \<noteq> []"
      then have "\<not> isWhiteSpace (hd ?d)" and "hd ?d \<in> set ?d"
        by (simp_all add: hd_dropWhile)
      with a show False by blast
    qed
  next
    assume e: "?d = []"
    show "\<forall>x \<in> set ?d. isWhiteSpace x" unfolding e by simp
  qed
  then have 2: "(\<forall>x \<in> set ?d. isWhiteSpace x) = (?d = [])" .
  have 1: "(dropWhile isWhiteSpace (rev ?d) = []) = (\<forall>x \<in> set ?d. isWhiteSpace x)"
    by (simp only: dropWhile_eq_Nil_conv set_rev)
  have 3: "(?d = []) = (\<forall>x \<in> set s. isWhiteSpace x)"
    by (rule dropWhile_eq_Nil_conv)
  have "(trim s = []) = (\<forall>x \<in> set s. isWhiteSpace x)"
    by (simp only: trim_def rev_is_Nil_conv 1 2 3)
  then show ?thesis by blast
qed

text \<open>
  Claim C6, as the code has it.  For a body in which no honeypot field holds a truthy
  value whose \<^verbatim>\<open>toString()\<close> throws, \<open>checkHoneypotFields\<close> returns true if and only if some
  honeypot field is present with a truthy value (not \<^verbatim>\<open>false\<close>, \<^verbatim>\<open>0\<close>, \<^verbatim>\<open>""\<close> or \<^verbatim>\<open>null\<close>)
  whose string form is non-empty after trimming.  A body with \<^verbatim>\<open>website\<close> set to
  \<^verbatim>\<open>"http://x.com"\<close> triggers it; the body \<^verbatim>\<open>{website: ""}\<close> does not.
\<close>

theorem checkHoneypotFields_truthy_nonblank:
  "((\<forall>f \<in> set HONEYPOT_FIELDS. \<forall>v. getProp (bodyOf reqBody) f = Some v \<longrightarrow> truthy v
        \<longrightarrow> (\<exists>s. toStringJ v = Inr s))
     \<longrightarrow> checkHoneypotFields reqBody
           = Inr (\<exists>f \<in> set HONEYPOT_FIELDS. \<exists>v s. getProp (bodyOf reqBody) f = Some v \<and> truthy v
                    \<and> toStringJ v = Inr s \<and> trim s \<noteq> []))
   \<and> (getProp (bodyOf reqBody) (js ''website'') = Some (JStr (js ''http://x.com''))
        \<longrightarrow> checkHoneypotFields reqBody = Inr True)
   \<and> checkHoneypotFields (Some (JObj [(js ''website'', JStr [])])) = Inr False"
proof (intro conjI impI)
  assume "\<forall>f \<in> set HONEYPOT_FIELDS. \<forall>v. getProp (bodyOf reqBody) f = Some v \<longrightarrow> truthy v
        \<longrightarrow> (\<exists>s. toStringJ v = Inr s)"
  then show "checkHoneypotFields reqBody
           = Inr (\<exists>f \<in> set HONEYPOT_FIELDS. \<exists>v s. getProp (bodyOf reqBody) f = Some v \<and> truthy v
                    \<and> toStringJ v = Inr s \<and> trim s \<noteq> [])"
    unfolding checkHoneypotFields_def by (rule honeypotLoop_iff)
next
  assume w: "getProp (bodyOf reqBody) (js ''website'') = Some (JStr (js ''http://x.com''))"
  have t: "trim (js ''http://x.com'') \<noteq> []"
    by code_simp
  have n: "js ''http://x.com'' \<noteq> []"
    by (simp add: js_def)
  obtain rest where r: "HONEYPOT_FIELDS = js ''website'' # rest"
    by (simp add: HONEYPOT_FIELDS_def)
  have "honeypotLoop (bodyOf reqBody) (js ''website'' # rest) = Inr True"
    using w t n by simp
  then show "checkHoneypotFields reqBody = Inr True"
    by (simp only: checkHoneypotFields_def r)
next
  show "checkHoneypotFields (Some (JObj [(js ''website'', JStr [])])) = Inr False"
    by code_simp
qed

theorem checkHoneypotFields_truthy_nonblank_witness:
  "getProp (bodyOf (Some (JObj [(js ''website'', JStr (js ''http://x.com''))]))) (js ''website'')
     = Some (JStr (js ''http://x.com''))
   \<and> checkHoneypotFields (Some (JObj [(js ''website'', JStr (js ''http://x.com''))])) = Inr True
   \<and> (\<exists>f v s. f \<in> set HONEYPOT_FIELDS
         \<and> getProp (bodyOf (Some (JObj [(js ''website'', JStr (js ''http://x.com''))]))) f = Some v
         \<and> truthy v \<and> toStringJ v = Inr s \<and> trim s \<noteq> [])"
proof -
  let ?b = "Some (JObj [(js ''website'', JStr (js ''http://x.com''))])"
  have g: "getProp (bodyOf ?b) (js ''website'') = Some (JStr (js ''http://x.com''))"
    by (simp add: bodyOf_def)
  have h: "\<forall>f \<in> set HONEYPOT_FIELDS. \<forall>v. getProp (bodyOf ?b) f = Some v \<longrightarrow> truthy v
             \<longrightarrow> (\<exists>s. toStringJ v = Inr s)"
    by (auto simp: bodyOf_def split: if_splits)
  from checkHoneypotFields_truthy_nonblank [of ?b] g h
  have "checkHoneypotFields ?b = Inr True"
    and "checkHoneypotFields ?b
           = Inr (\<exists>f \<in> set HONEYPOT_FIELDS. \<exists>v s. getProp (bodyOf ?b) f = Some v \<and> truthy v
                    \<and> toStringJ v = Inr s \<and> trim s \<noteq> [])"
    by blast+
  then show ?thesis using g by auto
qed

text \<open>
  The claim as stated fails on the body \<^verbatim>\<open>{website: false}\<close>: the field is on the list
  and present, the string form \<^verbatim>\<open>false\<close> of its value is non-empty after trimming, and
  \<open>checkHoneypotFields\<close> returns false.  The same holds for \<^verbatim>\<open>{website: 0}\<close>.
\<close>

theorem honeypot_falsy_counterexample:
  "getProp (bodyOf (Some (JObj [(js ''website'', JBool False)]))) (js ''website'') = Some (JBool False)
   \<and> toStringJ (JBool False) = Inr (js ''false'')
   \<and> trim (js ''false'') = js ''false''
   \<and> js ''false'' \<noteq> []
   \<and> js ''website'' \<in> set HONEYPOT_FIELDS
   \<and> checkHoneypotFields (Some (JObj [(js ''website'', JBool False)])) = Inr False"
  by code_simp

lemma honeypot_zero:
  "checkHoneypotFields (Some (JObj [(js ''website'', JNum 0)])) = Inr False
   \<and> toStringJ (JNum 0) = Inr (js ''0'')"
  by code_simp

lemma honeypot_throws:
  "checkHoneypotFields (Some (JObj [(js ''website'', JObj [(js ''toString'', JNum 1)])])) = Inl TypeError"
  by code_simp





section \<open>Password strength: properties\<close>


lemma matchAt_iff: "matchAt a s \<longleftrightarrow> (\<exists>w. prefix w s \<and> sameIgnoringCase a w)"
proof (induction a s rule: matchAt.induct)
  case (1 cs)
  then show ?case by (auto simp: sameIgnoringCase_def)
next
  case (2 p ps)
  then show ?case by (auto simp: sameIgnoringCase_def)
next
  case (3 p ps c cs)
  have "(\<exists>w. prefix w (c # cs) \<and> sameIgnoringCase (p # ps) w)
          \<longleftrightarrow> canonicalize c = canonicalize p \<and> (\<exists>w. prefix w cs \<and> sameIgnoringCase ps w)"
    by (auto simp: sameIgnoringCase_def list_all2_Cons1 prefix_Cons)
  with 3 show ?case by simp
qed

lemma searchAlternatives_iff:
  "searchAlternatives alts s \<longleftrightarrow> (\<exists>a \<in> set alts. \<exists>w. sublist w s \<and> sameIgnoringCase a w)"
proof (induction s)
  case Nil
  then show ?case by (auto simp: list_ex_iff matchAt_iff)
next
  case (Cons c cs)
  have "searchAlternatives alts (c # cs)
          \<longleftrightarrow> (\<exists>a \<in> set alts. \<exists>w. prefix w (c # cs) \<and> sameIgnoringCase a w)
              \<or> (\<exists>a \<in> set alts. \<exists>w. sublist w cs \<and> sameIgnoringCase a w)"
    using Cons by (simp add: list_ex_iff matchAt_iff)
  also have "\<dots> \<longleftrightarrow> (\<exists>a \<in> set alts. \<exists>w. sublist w (c # cs) \<and> sameIgnoringCase a w)"
    by (simp only: sublist_Cons_right [of _ c cs]) blast
  finally show ?case .
qed





















text \<open>
  The other reading: three emoji sharing their high surrogate are six code units,
  four of them distinct, and three elements of the \<^verbatim>\<open>Set\<close>.  The code deducts 10 for
  fewer than 4 distinct characters and scores 0, where the scheme on code units
  gives 10.
\<close>

lemma emoji_distinct_counts:
  "length emojiPassword = 6 \<and> card (set emojiPassword) = 4
   \<and> setSize (stringIterator emojiPassword) = 3"
  by code_simp

lemma schemeSum_matchers:
  "schemeSum p r d =
     (let n = int (length p)
      in bonus (n \<ge> 8) 20 + bonus (n \<ge> 12) 10 + bonus (n \<ge> 16) 10
         + bonus (list_ex isLowercase p) 10 + bonus (list_ex isUppercase p) 10
         + bonus (list_ex isDigit p) 10 + bonus (list_ex isSpecial p) 10
         - bonus r 10
         - bonus (searchAlternatives commonPatterns p) 20
         - bonus (d < 4) 10
         + bonus (n \<ge> 16 \<and> d \<ge> 10) 10
         + bonus (n \<ge> 20 \<and> d \<ge> 15) 10)"
  by (simp add: schemeSum_def list_ex_iff searchAlternatives_iff onDenylist_def)

lemma emoji_code_points_counterexample:
  "score (checkPasswordStrength emojiPassword) = 0 \<and> specScore emojiPassword = 10"
proof -
  have s: "score (checkPasswordStrength emojiPassword) = 0" by code_simp
  have r: "\<not> repeatsThrice emojiPassword"
    by (auto simp: repeatsThrice_def emojiPassword_def sublist_Cons_right)
  have k: "int (card (set emojiPassword)) = 4" by code_simp
  have "(let n = int (length emojiPassword)
      in bonus (n \<ge> 8) 20 + bonus (n \<ge> 12) 10 + bonus (n \<ge> 16) 10
         + bonus (list_ex isLowercase emojiPassword) 10 + bonus (list_ex isUppercase emojiPassword) 10
         + bonus (list_ex isDigit emojiPassword) 10 + bonus (list_ex isSpecial emojiPassword) 10
         - bonus False 10
         - bonus (searchAlternatives commonPatterns emojiPassword) 20
         - bonus ((4::int) < 4) 10
         + bonus (n \<ge> 16 \<and> (4::int) \<ge> 10) 10
         + bonus (n \<ge> 20 \<and> (4::int) \<ge> 15) 10) = 10"
    by code_simp
  then have "schemeSum emojiPassword False 4 = 10"
    by (simp only: schemeSum_matchers)
  with r k have "specScore emojiPassword = 10"
    by (simp add: specScore_def)
  with s show ?thesis by simp
qed


end
